theory Spec2Isabelle
  imports Complex_Main "HOL-Library.Word"
begin

section \<open>Ranges, iterators and element access\<close>

text \<open>
  The header \<^verbatim>\<open>binary_search.hpp\<close> searches a random-access range \<^verbatim>\<open>[begin, end)\<close>.
  The range is modelled by the list of its elements. An iterator is its signed
  distance from \<^verbatim>\<open>begin\<close> (the type \<^verbatim>\<open>ptrdiff_t\<close> of \<^verbatim>\<open>std::distance\<close>), so
  \<^verbatim>\<open>begin\<close> is \<open>0\<close> and the \<^verbatim>\<open>end\<close> sentinel is the length of the list. Offsets are
  unbounded integers: the offsets computed from the size of the range stay below
  twice that size, which is far from the limit of a 64-bit \<^verbatim>\<open>ptrdiff_t\<close>.
  All divisions below have non-negative operands, where the truncating division
  of C++ and \<open>div\<close> agree.

  Reading through an iterator outside \<^verbatim>\<open>[begin, end)\<close> is undefined behaviour in
  the source. The model makes it a result of its own, which ends the search at
  once: a search that returns \<open>Inr r\<close> has read only inside the range. A failing
  \<^verbatim>\<open>assert\<close> (a build without \<^verbatim>\<open>NDEBUG\<close>) is the second error; the third
  belongs to the interpolated search. Names of the source that are constants of
  HOL (\<^verbatim>\<open>bot\<close>, \<^verbatim>\<open>top\<close>, \<^verbatim>\<open>max\<close>, \<^verbatim>\<open>less_than\<close>) carry a prime. Each search has
  three forms here: the base form on predicates, the keyed form (suffix
  \<open>_keyed\<close>) and the default form on a key alone, under the name of the source.
\<close>

datatype error = Out_Of_Range int | Assertion_Failed | Undefined_Conversion

definition end_of :: "'a list \<Rightarrow> int" where
  "end_of xs = int (length xs)"

definition deref :: "'a list \<Rightarrow> int \<Rightarrow> error + 'a" where
  "deref xs it = (if 0 \<le> it \<and> it < end_of xs then Inr (xs ! nat it) else Inl (Out_Of_Range it))"

section \<open>Linear search\<close>

text \<open>The loop \<^verbatim>\<open>for (Iterator i = std::prev(end); i >= begin; --i)\<close> of \<^verbatim>\<open>linear_search_base\<close>.\<close>

function linear_search_loop :: "'a list \<Rightarrow> ('a \<Rightarrow> bool) \<Rightarrow> int \<Rightarrow> error + int" where
  "linear_search_loop xs equal_to i =
     (if 0 \<le> i then
        (case deref xs i of
           Inl e \<Rightarrow> Inl e
         | Inr v \<Rightarrow> if equal_to v then Inr i else linear_search_loop xs equal_to (i - 1))
      else Inr (end_of xs))"
  by pat_completeness auto
termination
  by (relation "measure (\<lambda>(xs, equal_to, i). nat (i + 1))") auto

definition linear_search_base :: "'a list \<Rightarrow> ('a \<Rightarrow> bool) \<Rightarrow> error + int" where
  "linear_search_base xs equal_to =
     (if end_of xs = 0 then Inr (end_of xs)
      else if \<not> 0 < end_of xs then Inl Assertion_Failed
      else linear_search_loop xs equal_to (end_of xs - 1))"

definition linear_search_keyed :: "'a list \<Rightarrow> 'k \<Rightarrow> ('k \<Rightarrow> 'a \<Rightarrow> bool) \<Rightarrow> error + int" where
  "linear_search_keyed xs key equal_to = linear_search_base xs (\<lambda>right. equal_to key right)"

definition linear_search :: "'a list \<Rightarrow> 'a \<Rightarrow> error + int" where
  "linear_search xs key = linear_search_base xs (\<lambda>right. right = key)"

section \<open>Breaking linear search\<close>

text \<open>The loop \<^verbatim>\<open>while (i > begin && less_than(*i)) --i;\<close>; it yields the final \<^verbatim>\<open>i\<close>.\<close>

function breaking_linear_search_loop :: "'a list \<Rightarrow> ('a \<Rightarrow> bool) \<Rightarrow> int \<Rightarrow> error + int" where
  "breaking_linear_search_loop xs less_than' i =
     (if 0 < i then
        (case deref xs i of
           Inl e \<Rightarrow> Inl e
         | Inr v \<Rightarrow> if less_than' v then breaking_linear_search_loop xs less_than' (i - 1) else Inr i)
      else Inr i)"
  by pat_completeness auto
termination
  by (relation "measure (\<lambda>(xs, less_than', i). nat i)") auto

definition breaking_linear_search_base ::
  "'a list \<Rightarrow> ('a \<Rightarrow> bool) \<Rightarrow> ('a \<Rightarrow> bool) \<Rightarrow> error + int" where
  "breaking_linear_search_base xs less_than' equal_to =
     (if end_of xs = 0 then Inr (end_of xs)
      else if \<not> 0 < end_of xs then Inl Assertion_Failed
      else
        (case breaking_linear_search_loop xs less_than' (end_of xs - 1) of
           Inl e \<Rightarrow> Inl e
         | Inr i \<Rightarrow>
             (case deref xs i of
                Inl e \<Rightarrow> Inl e
              | Inr v \<Rightarrow> Inr (if equal_to v then i else end_of xs))))"

definition breaking_linear_search_keyed ::
  "'a list \<Rightarrow> 'k \<Rightarrow> ('k \<Rightarrow> 'a \<Rightarrow> bool) \<Rightarrow> ('k \<Rightarrow> 'a \<Rightarrow> bool) \<Rightarrow> error + int" where
  "breaking_linear_search_keyed xs key less_than' equal_to =
     breaking_linear_search_base xs (\<lambda>right. less_than' key right) (\<lambda>right. equal_to key right)"

definition breaking_linear_search :: "('a::linorder) list \<Rightarrow> 'a \<Rightarrow> error + int" where
  "breaking_linear_search xs key =
     breaking_linear_search_base xs (\<lambda>right. key \<ge> right) (\<lambda>right. key = right)"

section \<open>Standard binary search\<close>

text \<open>
  The loop \<^verbatim>\<open>while (low < high)\<close> of \<^verbatim>\<open>standard_binary_search_base\<close>; it yields the
  final \<^verbatim>\<open>high\<close>. Nothing in the loop forces \<^verbatim>\<open>high - low\<close> to shrink (the branch
  \<^verbatim>\<open>low = mid\<close> may leave both ends where they are), so the loop is a partial
  function: \<open>None\<close> means that it never exits.
\<close>

partial_function (option) standard_binary_search_loop ::
  "'a list \<Rightarrow> ('a \<Rightarrow> bool) \<Rightarrow> int \<Rightarrow> int \<Rightarrow> (error + int) option" where
  "standard_binary_search_loop xs less_than' low high =
     (if low < high then
        (let mid = low + (high - low) div 2 in
         case deref xs mid of
           Inl e \<Rightarrow> Some (Inl e)
         | Inr v \<Rightarrow>
             if less_than' v then standard_binary_search_loop xs less_than' low (mid - 1)
             else standard_binary_search_loop xs less_than' mid high)
      else Some (Inr high))"

declare standard_binary_search_loop.simps [code]

definition standard_binary_search_base ::
  "'a list \<Rightarrow> ('a \<Rightarrow> bool) \<Rightarrow> ('a \<Rightarrow> bool) \<Rightarrow> (error + int) option" where
  "standard_binary_search_base xs less_than' equal_to =
     (if end_of xs = 0 then Some (Inr (end_of xs))
      else if \<not> 0 < end_of xs then Some (Inl Assertion_Failed)
      else
        (case standard_binary_search_loop xs less_than' 0 (end_of xs - 1) of
           None \<Rightarrow> None
         | Some (Inl e) \<Rightarrow> Some (Inl e)
         | Some (Inr high) \<Rightarrow>
             (case deref xs high of
                Inl e \<Rightarrow> Some (Inl e)
              | Inr v \<Rightarrow> Some (Inr (if equal_to v then high else end_of xs)))))"

definition standard_binary_search_keyed ::
  "'a list \<Rightarrow> 'k \<Rightarrow> ('k \<Rightarrow> 'a \<Rightarrow> bool) \<Rightarrow> ('k \<Rightarrow> 'a \<Rightarrow> bool) \<Rightarrow> (error + int) option" where
  "standard_binary_search_keyed xs key less_than' equal_to =
     standard_binary_search_base xs (\<lambda>right. less_than' key right) (\<lambda>right. equal_to key right)"

definition standard_binary_search :: "('a::linorder) list \<Rightarrow> 'a \<Rightarrow> (error + int) option" where
  "standard_binary_search xs key =
     standard_binary_search_base xs (\<lambda>right. key < right) (\<lambda>right. key = right)"

section \<open>Boundless binary search\<close>

text \<open>
  The loop \<^verbatim>\<open>while (mid > 1)\<close> of \<^verbatim>\<open>boundless_binary_search_base\<close>; it yields the
  final \<^verbatim>\<open>bot\<close>. In \<^verbatim>\<open>bot += mid++ / 2; mid /= 2;\<close> the old \<^verbatim>\<open>mid\<close> is halved
  for \<^verbatim>\<open>bot\<close> and the incremented one for the next \<^verbatim>\<open>mid\<close>.
\<close>

function boundless_binary_search_loop ::
  "'a list \<Rightarrow> ('a \<Rightarrow> bool) \<Rightarrow> int \<Rightarrow> int \<Rightarrow> error + int" where
  "boundless_binary_search_loop xs less_than' bot' mid =
     (if 1 < mid then
        (case deref xs (bot' + mid div 2) of
           Inl e \<Rightarrow> Inl e
         | Inr v \<Rightarrow>
             if \<not> less_than' v
             then boundless_binary_search_loop xs less_than' (bot' + mid div 2) ((mid + 1) div 2)
             else boundless_binary_search_loop xs less_than' bot' (mid div 2))
      else Inr bot')"
  by pat_completeness auto
termination
  by (relation "measure (\<lambda>(xs, less_than', bot', mid). nat mid)") auto

definition boundless_binary_search_base ::
  "'a list \<Rightarrow> ('a \<Rightarrow> bool) \<Rightarrow> ('a \<Rightarrow> bool) \<Rightarrow> error + int" where
  "boundless_binary_search_base xs less_than' equal_to =
     (if end_of xs = 0 then Inr (end_of xs)
      else if \<not> 0 < end_of xs then Inl Assertion_Failed
      else
        (case boundless_binary_search_loop xs less_than' 0 (end_of xs) of
           Inl e \<Rightarrow> Inl e
         | Inr bot' \<Rightarrow>
             (case deref xs bot' of
                Inl e \<Rightarrow> Inl e
              | Inr v \<Rightarrow> Inr (if equal_to v then bot' else end_of xs))))"

definition boundless_binary_search_keyed ::
  "'a list \<Rightarrow> 'k \<Rightarrow> ('k \<Rightarrow> 'a \<Rightarrow> bool) \<Rightarrow> ('k \<Rightarrow> 'a \<Rightarrow> bool) \<Rightarrow> error + int" where
  "boundless_binary_search_keyed xs key less_than' equal_to =
     boundless_binary_search_base xs (\<lambda>right. less_than' key right) (\<lambda>right. equal_to key right)"

definition boundless_binary_search :: "('a::linorder) list \<Rightarrow> 'a \<Rightarrow> error + int" where
  "boundless_binary_search xs key =
     boundless_binary_search_base xs (\<lambda>right. key \<ge> right) (\<lambda>right. key = right)"

section \<open>Doubletapped binary search\<close>

text \<open>The loop \<^verbatim>\<open>while (mid > 2)\<close>; it yields the final \<^verbatim>\<open>bot\<close> and \<^verbatim>\<open>mid\<close>.\<close>

function doubletapped_binary_search_loop ::
  "'a list \<Rightarrow> ('a \<Rightarrow> bool) \<Rightarrow> int \<Rightarrow> int \<Rightarrow> error + int \<times> int" where
  "doubletapped_binary_search_loop xs less_than' bot' mid =
     (if 2 < mid then
        (case deref xs (bot' + mid div 2) of
           Inl e \<Rightarrow> Inl e
         | Inr v \<Rightarrow>
             if \<not> less_than' v
             then doubletapped_binary_search_loop xs less_than' (bot' + mid div 2) ((mid + 1) div 2)
             else doubletapped_binary_search_loop xs less_than' bot' (mid div 2))
      else Inr (bot', mid))"
  by pat_completeness auto
termination
  by (relation "measure (\<lambda>(xs, less_than', bot', mid). nat mid)") auto

text \<open>
  The closing loop of the doubletapped, quaternary and interpolated searches,
  \<^verbatim>\<open>while (top--) { target = std::next(begin, bot + top); if (equal_to(*target)) return target; }\<close>
  followed by \<^verbatim>\<open>return end;\<close> (the doubletapped search calls the counter \<^verbatim>\<open>mid\<close>;
  the adaptive search writes it \<^verbatim>\<open>while (top != 0) if (equal_to(*std::next(begin, bot + --top)))\<close>).
  The counter is tested against zero and then decremented, so a negative counter
  keeps counting down; the model stops there at the first read outside the range.
\<close>

function tail_taps :: "'a list \<Rightarrow> ('a \<Rightarrow> bool) \<Rightarrow> int \<Rightarrow> int \<Rightarrow> error + int" where
  "tail_taps xs equal_to bot' top' =
     (if top' \<noteq> 0 then
        (case deref xs (bot' + (top' - 1)) of
           Inl e \<Rightarrow> Inl e
         | Inr v \<Rightarrow> if equal_to v then Inr (bot' + (top' - 1)) else tail_taps xs equal_to bot' (top' - 1))
      else Inr (end_of xs))"
  by pat_completeness auto
termination
  by (relation "measure (\<lambda>(xs, equal_to, bot', top'). if 0 \<le> top' then nat top' else nat (bot' + top'))")
     (auto simp: deref_def split: if_splits)

definition doubletapped_binary_search_base ::
  "'a list \<Rightarrow> ('a \<Rightarrow> bool) \<Rightarrow> ('a \<Rightarrow> bool) \<Rightarrow> error + int" where
  "doubletapped_binary_search_base xs less_than' equal_to =
     (if \<not> 0 < end_of xs then Inl Assertion_Failed
      else
        (case doubletapped_binary_search_loop xs less_than' 0 (end_of xs) of
           Inl e \<Rightarrow> Inl e
         | Inr (bot', mid) \<Rightarrow> tail_taps xs equal_to bot' mid))"

definition doubletapped_binary_search_keyed ::
  "'a list \<Rightarrow> 'k \<Rightarrow> ('k \<Rightarrow> 'a \<Rightarrow> bool) \<Rightarrow> ('k \<Rightarrow> 'a \<Rightarrow> bool) \<Rightarrow> error + int" where
  "doubletapped_binary_search_keyed xs key less_than' equal_to =
     doubletapped_binary_search_base xs (\<lambda>right. less_than' key right) (\<lambda>right. equal_to key right)"

definition doubletapped_binary_search :: "('a::linorder) list \<Rightarrow> 'a \<Rightarrow> error + int" where
  "doubletapped_binary_search xs key =
     doubletapped_binary_search_base xs (\<lambda>right. key \<ge> right) (\<lambda>right. key = right)"

section \<open>Monobound binary search\<close>

text \<open>
  The loop \<^verbatim>\<open>while (high > second)\<close> of \<^verbatim>\<open>monobound_binary_search_base\<close>, with
  \<^verbatim>\<open>second = std::next(begin)\<close>; it yields the final \<^verbatim>\<open>low\<close>. The probe is
  \<^verbatim>\<open>*std::next(begin, k)\<close>: it is taken from \<^verbatim>\<open>begin\<close>, not from \<^verbatim>\<open>low\<close>.
\<close>

function monobound_binary_search_loop ::
  "'a list \<Rightarrow> ('a \<Rightarrow> bool) \<Rightarrow> int \<Rightarrow> int \<Rightarrow> error + int" where
  "monobound_binary_search_loop xs less_than' low high =
     (if 1 < high then
        (let k = (high - 0) div 2 in
         case deref xs (0 + k) of
           Inl e \<Rightarrow> Inl e
         | Inr v \<Rightarrow>
             if \<not> less_than' v
             then monobound_binary_search_loop xs less_than' (low + k) (high - k)
             else monobound_binary_search_loop xs less_than' low (high - k))
      else Inr low)"
  by pat_completeness auto
termination
  by (relation "measure (\<lambda>(xs, less_than', low, high). nat high)") auto

definition monobound_binary_search_base ::
  "'a list \<Rightarrow> ('a \<Rightarrow> bool) \<Rightarrow> ('a \<Rightarrow> bool) \<Rightarrow> error + int" where
  "monobound_binary_search_base xs less_than' equal_to =
     (if end_of xs = 0 then Inr (end_of xs)
      else if \<not> 0 < end_of xs then Inl Assertion_Failed
      else
        (case monobound_binary_search_loop xs less_than' 0 (end_of xs) of
           Inl e \<Rightarrow> Inl e
         | Inr low \<Rightarrow>
             (case deref xs low of
                Inl e \<Rightarrow> Inl e
              | Inr v \<Rightarrow> Inr (if equal_to v then low else end_of xs))))"

definition monobound_binary_search_keyed ::
  "'a list \<Rightarrow> 'k \<Rightarrow> ('k \<Rightarrow> 'a \<Rightarrow> bool) \<Rightarrow> ('k \<Rightarrow> 'a \<Rightarrow> bool) \<Rightarrow> error + int" where
  "monobound_binary_search_keyed xs key less_than' equal_to =
     monobound_binary_search_base xs (\<lambda>right. less_than' key right) (\<lambda>right. equal_to key right)"

definition monobound_binary_search :: "('a::linorder) list \<Rightarrow> 'a \<Rightarrow> error + int" where
  "monobound_binary_search xs key =
     monobound_binary_search_base xs (\<lambda>right. key < right) (\<lambda>right. key = right)"

section \<open>Tripletapped binary search\<close>

text \<open>
  The loop \<^verbatim>\<open>while (top > 3) { auto mid = top / 2; if (!less_than(*std::next(begin, bot + mid))) bot += mid; top -= mid; }\<close>
  of the tripletapped, quaternary and interpolated searches; it yields the final
  \<^verbatim>\<open>bot\<close> and \<^verbatim>\<open>top\<close>.
\<close>

function narrow_to_three :: "'a list \<Rightarrow> ('a \<Rightarrow> bool) \<Rightarrow> int \<Rightarrow> int \<Rightarrow> error + int \<times> int" where
  "narrow_to_three xs less_than' bot' top' =
     (if 3 < top' then
        (let mid = top' div 2 in
         case deref xs (bot' + mid) of
           Inl e \<Rightarrow> Inl e
         | Inr v \<Rightarrow>
             if \<not> less_than' v
             then narrow_to_three xs less_than' (bot' + mid) (top' - mid)
             else narrow_to_three xs less_than' bot' (top' - mid))
      else Inr (bot', top'))"
  by pat_completeness auto
termination
  by (relation "measure (\<lambda>(xs, less_than', bot', top'). nat top')") auto

text \<open>
  The closing loop of \<^verbatim>\<open>tripletapped_binary_search_base\<close>,
  \<^verbatim>\<open>while (mid--) { Iterator target = std::next(begin, bot + top); if (equal_to(*target)) return target; }\<close>.
  Its counter is the \<^verbatim>\<open>mid\<close> declared before the narrowing loop; the target does
  not depend on the counter, so for a negative counter the loop may run forever.
\<close>

partial_function (option) tripletapped_tail ::
  "'a list \<Rightarrow> ('a \<Rightarrow> bool) \<Rightarrow> int \<Rightarrow> int \<Rightarrow> int \<Rightarrow> (error + int) option" where
  "tripletapped_tail xs equal_to bot' top' mid =
     (if mid \<noteq> 0 then
        (case deref xs (bot' + top') of
           Inl e \<Rightarrow> Some (Inl e)
         | Inr v \<Rightarrow>
             if equal_to v then Some (Inr (bot' + top'))
             else tripletapped_tail xs equal_to bot' top' (mid - 1))
      else Some (Inr (end_of xs)))"

declare tripletapped_tail.simps [code]

text \<open>
  The narrowing loop declares a \<^verbatim>\<open>mid\<close> of its own (\<^verbatim>\<open>auto mid = top / 2;\<close>), which
  hides the outer \<^verbatim>\<open>decltype(top) mid = 0;\<close> inside the loop body only: the closing
  loop starts from the outer \<^verbatim>\<open>mid\<close>, which is still \<open>0\<close>.
\<close>

definition tripletapped_binary_search_base ::
  "'a list \<Rightarrow> ('a \<Rightarrow> bool) \<Rightarrow> ('a \<Rightarrow> bool) \<Rightarrow> (error + int) option" where
  "tripletapped_binary_search_base xs less_than' equal_to =
     (if end_of xs = 0 then Some (Inr (end_of xs))
      else if \<not> 0 < end_of xs then Some (Inl Assertion_Failed)
      else
        (let mid = 0 in
         case narrow_to_three xs less_than' 0 (end_of xs) of
           Inl e \<Rightarrow> Some (Inl e)
         | Inr (bot', top') \<Rightarrow> tripletapped_tail xs equal_to bot' top' mid))"

definition tripletapped_binary_search_keyed ::
  "'a list \<Rightarrow> 'k \<Rightarrow> ('k \<Rightarrow> 'a \<Rightarrow> bool) \<Rightarrow> ('k \<Rightarrow> 'a \<Rightarrow> bool) \<Rightarrow> (error + int) option" where
  "tripletapped_binary_search_keyed xs key less_than' equal_to =
     tripletapped_binary_search_base xs (\<lambda>right. less_than' key right) (\<lambda>right. equal_to key right)"

definition tripletapped_binary_search :: "('a::linorder) list \<Rightarrow> 'a \<Rightarrow> (error + int) option" where
  "tripletapped_binary_search xs key =
     tripletapped_binary_search_base xs (\<lambda>right. key < right) (\<lambda>right. key = right)"

section \<open>Monobound quaternary search\<close>

text \<open>The loop \<^verbatim>\<open>while (top >= 65536)\<close>; it yields the final \<^verbatim>\<open>bot\<close> and \<^verbatim>\<open>top\<close>.\<close>

function monobound_quaternary_search_loop ::
  "'a list \<Rightarrow> ('a \<Rightarrow> bool) \<Rightarrow> int \<Rightarrow> int \<Rightarrow> error + int \<times> int" where
  "monobound_quaternary_search_loop xs less_than' bot' top' =
     (if 65536 \<le> top' then
        (let mid = top' div 4 in
         case deref xs (bot' + mid * 2) of
           Inl e \<Rightarrow> Inl e
         | Inr v \<Rightarrow>
             if less_than' v then
               (case deref xs (bot' + mid) of
                  Inl e \<Rightarrow> Inl e
                | Inr w \<Rightarrow>
                    if \<not> less_than' w
                    then monobound_quaternary_search_loop xs less_than' (bot' + mid) (top' - mid * 3)
                    else monobound_quaternary_search_loop xs less_than' bot' (top' - mid * 3))
             else
               (case deref xs (bot' + mid * 2 + mid) of
                  Inl e \<Rightarrow> Inl e
                | Inr w \<Rightarrow>
                    if \<not> less_than' w
                    then monobound_quaternary_search_loop xs less_than' (bot' + mid * 2 + mid) (top' - mid * 3)
                    else monobound_quaternary_search_loop xs less_than' (bot' + mid * 2) (top' - mid * 3)))
      else Inr (bot', top'))"
  by pat_completeness auto
termination
  by (relation "measure (\<lambda>(xs, less_than', bot', top'). nat top')") auto

definition monobound_quaternary_search_base ::
  "'a list \<Rightarrow> ('a \<Rightarrow> bool) \<Rightarrow> ('a \<Rightarrow> bool) \<Rightarrow> error + int" where
  "monobound_quaternary_search_base xs less_than' equal_to =
     (if end_of xs = 0 then Inr (end_of xs)
      else if \<not> 0 < end_of xs then Inl Assertion_Failed
      else
        (case monobound_quaternary_search_loop xs less_than' 0 (end_of xs) of
           Inl e \<Rightarrow> Inl e
         | Inr (bot', top') \<Rightarrow>
             (case narrow_to_three xs less_than' bot' top' of
                Inl e \<Rightarrow> Inl e
              | Inr (bot', top') \<Rightarrow> tail_taps xs equal_to bot' top')))"

definition monobound_quaternary_search_keyed ::
  "'a list \<Rightarrow> 'k \<Rightarrow> ('k \<Rightarrow> 'a \<Rightarrow> bool) \<Rightarrow> ('k \<Rightarrow> 'a \<Rightarrow> bool) \<Rightarrow> error + int" where
  "monobound_quaternary_search_keyed xs key less_than' equal_to =
     monobound_quaternary_search_base xs (\<lambda>right. less_than' key right) (\<lambda>right. equal_to key right)"

definition monobound_quaternary_search :: "('a::linorder) list \<Rightarrow> 'a \<Rightarrow> error + int" where
  "monobound_quaternary_search xs key =
     monobound_quaternary_search_base xs (\<lambda>right. key < right) (\<lambda>right. key = right)"

section \<open>Monobound interpolated search\<close>

text \<open>
  \<^verbatim>\<open>monobound_interpolated_search_base\<close> calls its predicates on dereferenced
  elements (\<^verbatim>\<open>less_than(*begin)\<close>, \<^verbatim>\<open>less_than(*max)\<close>) and, in two places, on an
  iterator itself (\<^verbatim>\<open>equal_to(max)\<close>, \<^verbatim>\<open>less_than(std::next(begin, bot))\<close>). The
  argument of a predicate is therefore either of the two.
\<close>

datatype 'a operand = Element 'a | Iterator int

text \<open>
  The statement \<^verbatim>\<open>bot *= (real_type)(key - *min) / (*max - *min);\<close> computes in
  floating point: \<^verbatim>\<open>real_type\<close> is \<^verbatim>\<open>double\<close> for the 64-bit \<^verbatim>\<open>ptrdiff_t\<close> of
  \<^verbatim>\<open>bot\<close>. A finite \<^verbatim>\<open>double\<close> is modelled by the rational number it denotes, and
  each conversion and operation by the exact result rounded to the nearest number
  with a significand of 53 bits, ties to the even significand (the default
  rounding of IEEE 754). The operands here are quotients and products of
  integers of at most 64 bits, far inside the exponent range of \<^verbatim>\<open>double\<close>, so
  neither overflow nor subnormal numbers arise. Elements are integers; the
  subtractions \<^verbatim>\<open>key - *min\<close> and \<^verbatim>\<open>*max - *min\<close> are taken exactly, as they are
  in the source whenever they do not overflow the element type.
\<close>

text \<open>The number of binary digits of a positive integer.\<close>

function bit_length :: "int \<Rightarrow> int" where
  "bit_length n = (if 0 < n then bit_length (n div 2) + 1 else 0)"
  by pat_completeness auto
termination
  by (relation "measure nat") auto

definition pow2 :: "int \<Rightarrow> rat" where
  "pow2 e = (if 0 \<le> e then 2 ^ nat e else 1 / 2 ^ nat (- e))"

text \<open>For a positive \<open>x\<close>, the exponent \<open>e\<close> with \<open>pow2 e \<le> x < pow2 (e + 1)\<close>.\<close>

definition binary_exponent :: "rat \<Rightarrow> int" where
  "binary_exponent x =
     (let (p, q) = quotient_of x; k = bit_length p - bit_length q
      in if pow2 k \<le> x then k else k - 1)"

definition round_half_even :: "rat \<Rightarrow> int" where
  "round_half_even x =
     (let f = \<lfloor>x\<rfloor>; r = x - of_int f
      in if r < 1 / 2 then f else if 1 / 2 < r then f + 1 else if even f then f else f + 1)"

text \<open>
  Rounding to \<^verbatim>\<open>double\<close>: the number is scaled by a power of two into the range
  from \<open>pow2 52\<close> to \<open>pow2 53\<close>, rounded to an integer and scaled back.
\<close>

definition to_double :: "rat \<Rightarrow> rat" where
  "to_double x =
     (if x = 0 then 0
      else
        (let e = binary_exponent \<bar>x\<bar> - 52
         in sgn x * of_int (round_half_even (\<bar>x\<bar> / pow2 e)) * pow2 e))"

text \<open>The conversion of a \<^verbatim>\<open>double\<close> to an integer discards the fraction.\<close>

definition truncate_toward_zero :: "rat \<Rightarrow> int" where
  "truncate_toward_zero x = (if 0 \<le> x then \<lfloor>x\<rfloor> else - \<lfloor>- x\<rfloor>)"

text \<open>
  The numerator, the denominator and \<^verbatim>\<open>bot\<close> are converted to \<^verbatim>\<open>double\<close>, the
  quotient and the product are rounded, and the product is converted back to
  \<^verbatim>\<open>ptrdiff_t\<close>. For equal end values the quotient is infinite or not a number;
  its conversion to an integer is undefined, as is that of a product outside
  the range of \<^verbatim>\<open>ptrdiff_t\<close>.
\<close>

definition interpolate :: "int \<Rightarrow> int \<Rightarrow> int \<Rightarrow> int \<Rightarrow> error + int" where
  "interpolate bot' key min_value max_value =
     (let numerator = to_double (of_int (key - min_value));
          denominator = to_double (of_int (max_value - min_value))
      in if denominator = 0 then Inl Undefined_Conversion
         else
           (let product = to_double (to_double (of_int bot') * to_double (numerator / denominator));
                result = truncate_toward_zero product
            in if - (2 ^ 63) \<le> result \<and> result < 2 ^ 63 then Inr result
               else Inl Undefined_Conversion))"

text \<open>
  The two \<^verbatim>\<open>while (true)\<close> loops; each yields the final \<^verbatim>\<open>bot\<close> and \<^verbatim>\<open>top\<close>. They
  leave through a \<^verbatim>\<open>break\<close> only, so they are partial functions.
\<close>

partial_function (option) interpolated_gallop_up ::
  "'a list \<Rightarrow> ('a operand \<Rightarrow> bool) \<Rightarrow> int \<Rightarrow> int \<Rightarrow> (error + int \<times> int) option" where
  "interpolated_gallop_up xs less_than' bot' top' =
     (if end_of xs \<le> bot' + top' then Some (Inr (bot', end_of xs - bot'))
      else
        (case deref xs (bot' + top') of
           Inl e \<Rightarrow> Some (Inl e)
         | Inr v \<Rightarrow>
             if less_than' (Element v) then Some (Inr (bot' + top' - top', top'))
             else interpolated_gallop_up xs less_than' (bot' + top') (top' * 2)))"

declare interpolated_gallop_up.simps [code]

partial_function (option) interpolated_gallop_down ::
  "'a list \<Rightarrow> ('a operand \<Rightarrow> bool) \<Rightarrow> int \<Rightarrow> int \<Rightarrow> (error + int \<times> int) option" where
  "interpolated_gallop_down xs less_than' bot' top' =
     (if bot' < top' then Some (Inr (0, bot'))
      else
        (case deref xs (bot' - top') of
           Inl e \<Rightarrow> Some (Inl e)
         | Inr v \<Rightarrow>
             if less_than' (Element v) then Some (Inr (bot' - top', top'))
             else interpolated_gallop_down xs less_than' (bot' - top') (top' * 2)))"

declare interpolated_gallop_down.simps [code]

definition monobound_interpolated_search_base ::
  "int list \<Rightarrow> int \<Rightarrow> (int operand \<Rightarrow> bool) \<Rightarrow> (int operand \<Rightarrow> bool) \<Rightarrow> (error + int) option" where
  "monobound_interpolated_search_base xs key less_than' equal_to =
     (if end_of xs = 0 then Some (Inr (end_of xs))
      else if \<not> 0 < end_of xs then Some (Inl Assertion_Failed)
      else
        (case deref xs 0 of
           Inl e \<Rightarrow> Some (Inl e)
         | Inr min_value \<Rightarrow>
             if less_than' (Element min_value) then Some (Inr (end_of xs))
             else
               (let size = end_of xs; bot' = size - 1; max' = bot' in
                case deref xs max' of
                  Inl e \<Rightarrow> Some (Inl e)
                | Inr max_value \<Rightarrow>
                    if \<not> less_than' (Element max_value)
                    then Some (Inr (if equal_to (Iterator max') then max' else end_of xs))
                    else
                      (case interpolate bot' key min_value max_value of
                         Inl e \<Rightarrow> Some (Inl e)
                       | Inr bot' \<Rightarrow>
                           (let top' = 64 in
                            case (if \<not> less_than' (Iterator bot')
                                  then interpolated_gallop_up xs less_than' bot' top'
                                  else interpolated_gallop_down xs less_than' bot' top') of
                              None \<Rightarrow> None
                            | Some (Inl e) \<Rightarrow> Some (Inl e)
                            | Some (Inr (bot', top')) \<Rightarrow>
                                (case narrow_to_three xs (\<lambda>right. less_than' (Element right)) bot' top' of
                                   Inl e \<Rightarrow> Some (Inl e)
                                 | Inr (bot', top') \<Rightarrow>
                                     Some (tail_taps xs (\<lambda>right. equal_to (Element right)) bot' top')))))))"

text \<open>
  The keyed and the default form pass \<^verbatim>\<open>less_than(key, right)\<close> and \<^verbatim>\<open>key < right\<close>
  on whatever the base form hands them. On an element that is the comparison of
  the element type. On an iterator the source fixes no meaning (for an integer
  key and a pointer the comparison is not even well-formed), so the comparisons
  of a key with an iterator are parameters: \<open>less_iterator\<close> for \<^verbatim>\<open>key < right\<close>
  and \<open>equal_iterator\<close> for \<^verbatim>\<open>key == right\<close>.
\<close>

definition monobound_interpolated_search_keyed ::
  "int list \<Rightarrow> int \<Rightarrow> (int \<Rightarrow> int operand \<Rightarrow> bool) \<Rightarrow> (int \<Rightarrow> int operand \<Rightarrow> bool) \<Rightarrow> (error + int) option" where
  "monobound_interpolated_search_keyed xs key less_than' equal_to =
     monobound_interpolated_search_base xs key (\<lambda>right. less_than' key right) (\<lambda>right. equal_to key right)"

definition monobound_interpolated_search ::
  "(int \<Rightarrow> int \<Rightarrow> bool) \<Rightarrow> (int \<Rightarrow> int \<Rightarrow> bool) \<Rightarrow> int list \<Rightarrow> int \<Rightarrow> (error + int) option" where
  "monobound_interpolated_search less_iterator equal_iterator xs key =
     monobound_interpolated_search_base xs key
       (\<lambda>right. case right of Element v \<Rightarrow> key < v | Iterator it \<Rightarrow> less_iterator key it)
       (\<lambda>right. case right of Element v \<Rightarrow> key = v | Iterator it \<Rightarrow> equal_iterator key it)"

section \<open>Adaptive binary search\<close>

text \<open>
  The two \<^verbatim>\<open>while (true)\<close> loops of \<^verbatim>\<open>adaptive_binary_search_base\<close>; each yields the
  final \<^verbatim>\<open>bot\<close> and \<^verbatim>\<open>top\<close>.
\<close>

partial_function (option) adaptive_gallop_up ::
  "'a list \<Rightarrow> ('a \<Rightarrow> bool) \<Rightarrow> int \<Rightarrow> int \<Rightarrow> (error + int \<times> int) option" where
  "adaptive_gallop_up xs less_than' bot' top' =
     (if end_of xs \<le> bot' + top' then Some (Inr (bot', end_of xs - bot'))
      else
        (case deref xs (bot' + top') of
           Inl e \<Rightarrow> Some (Inl e)
         | Inr v \<Rightarrow>
             if less_than' v then Some (Inr (bot' + top' - top', top'))
             else adaptive_gallop_up xs less_than' (bot' + top') (top' * 2)))"

declare adaptive_gallop_up.simps [code]

partial_function (option) adaptive_gallop_down ::
  "'a list \<Rightarrow> ('a \<Rightarrow> bool) \<Rightarrow> int \<Rightarrow> int \<Rightarrow> (error + int \<times> int) option" where
  "adaptive_gallop_down xs less_than' bot' top' =
     (if bot' < top' then Some (Inr (0, bot'))
      else
        (case deref xs (bot' - top') of
           Inl e \<Rightarrow> Some (Inl e)
         | Inr v \<Rightarrow>
             if \<not> less_than' v then Some (Inr (bot' - top', top'))
             else adaptive_gallop_down xs less_than' (bot' - top') (top' * 2)))"

declare adaptive_gallop_down.simps [code]

text \<open>
  The state record; \<^verbatim>\<open>size_t\<close> is taken to be 64 bits wide. The assignment
  \<^verbatim>\<open>bot = state.i\<close> converts it to the signed \<^verbatim>\<open>ptrdiff_t\<close>.
\<close>

record adaptive_binary_search_state =
  i :: "64 word"
  balance :: "64 word"

text \<open>
  The state is passed by reference, so the model returns it next to the
  iterator. The name \<^verbatim>\<open>array_size\<close> in the fallback branch is declared nowhere
  in the header; its value is a parameter of the model.
\<close>

definition adaptive_binary_search_base ::
  "int \<Rightarrow> 'a list \<Rightarrow> 'k \<Rightarrow> ('a \<Rightarrow> bool) \<Rightarrow> ('a \<Rightarrow> bool) \<Rightarrow> adaptive_binary_search_state
     \<Rightarrow> ((error + int) \<times> adaptive_binary_search_state) option" where
  "adaptive_binary_search_base array_size xs key less_than' equal_to state =
     (if end_of xs = 0 then Some (Inr (end_of xs), state)
      else if \<not> 0 < end_of xs then Some (Inl Assertion_Failed, state)
      else
        (let size = end_of xs in
         case
           (if balance state < 32 \<and> 64 < size then
              (let bot' = sint (i state); top' = 32 in
               case deref xs bot' of
                 Inl e \<Rightarrow> Some (Inl e)
               | Inr v \<Rightarrow>
                   if \<not> less_than' v then adaptive_gallop_up xs less_than' bot' top'
                   else adaptive_gallop_down xs less_than' bot' top')
            else Some (Inr (0, array_size)))
         of
           None \<Rightarrow> None
         | Some (Inl e) \<Rightarrow> Some (Inl e, state)
         | Some (Inr (bot', top')) \<Rightarrow> Some (tail_taps xs equal_to bot' top', state)))"

definition adaptive_binary_search_keyed ::
  "int \<Rightarrow> 'a list \<Rightarrow> 'k \<Rightarrow> ('k \<Rightarrow> 'a \<Rightarrow> bool) \<Rightarrow> ('k \<Rightarrow> 'a \<Rightarrow> bool) \<Rightarrow> adaptive_binary_search_state
     \<Rightarrow> ((error + int) \<times> adaptive_binary_search_state) option" where
  "adaptive_binary_search_keyed array_size xs key less_than' equal_to state =
     adaptive_binary_search_base array_size xs key
       (\<lambda>right. less_than' key right) (\<lambda>right. equal_to key right) state"

definition adaptive_binary_search ::
  "int \<Rightarrow> ('a::linorder) list \<Rightarrow> 'a \<Rightarrow> adaptive_binary_search_state
     \<Rightarrow> ((error + int) \<times> adaptive_binary_search_state) option" where
  "adaptive_binary_search array_size xs key state =
     adaptive_binary_search_base array_size xs key (\<lambda>right. key < right) (\<lambda>right. key = right) state"

section \<open>The standard binary search can run forever\<close>

text \<open>
  Once the window of \<^verbatim>\<open>standard_binary_search_base\<close> is two elements wide and the
  predicate fails at its lower element, \<^verbatim>\<open>mid\<close> is \<^verbatim>\<open>low\<close> again and the branch
  \<^verbatim>\<open>low = mid\<close> changes nothing: the loop never exits.
\<close>

lemma standard_binary_search_loop_stuck:
  assumes "0 \<le> low" and "low + 1 < end_of xs" and "\<not> less_than' (xs ! nat low)"
  shows "standard_binary_search_loop xs less_than' low (low + 1) = None"
proof (rule ccontr)
  assume "standard_binary_search_loop xs less_than' low (low + 1) \<noteq> None"
  then obtain r where r: "standard_binary_search_loop xs less_than' low (low + 1) = Some r"
    by blast
  have "\<not> (xs = xs \<and> less_than' = less_than' \<and> low = low \<and> low + 1 = low + 1)"
  proof (rule standard_binary_search_loop.raw_induct
      [where P = "\<lambda>ys p l h res. \<not> (ys = xs \<and> p = less_than' \<and> l = low \<and> h = low + 1)", OF _ r])
    fix loop ys p l h res
    assume IH: "\<And>ys p l h res. loop ys p l h = Some res \<Longrightarrow>
                  \<not> (ys = xs \<and> p = less_than' \<and> l = low \<and> h = low + 1)"
      and step: "(if l < h then
        (let mid = l + (h - l) div 2 in
         case deref ys mid of
           Inl e \<Rightarrow> Some (Inl e)
         | Inr v \<Rightarrow> if p v then loop ys p l (mid - 1) else loop ys p mid h)
      else Some (Inr h)) = Some res"
    show "\<not> (ys = xs \<and> p = less_than' \<and> l = low \<and> h = low + 1)"
    proof
      assume "ys = xs \<and> p = less_than' \<and> l = low \<and> h = low + 1"
      with assms step have "loop xs less_than' low (low + 1) = Some res"
        by (simp add: deref_def)
      with IH show False by blast
    qed
  qed
  then show False by simp
qed

text \<open>
  C2. The narrowing loop of the standard binary search does not always exit: on
  the sorted range \<open>[1, 3]\<close> the search for the key \<open>3\<close> never returns.
\<close>

theorem standard_binary_search_diverges:
  "standard_binary_search [1, 3::int] 3 = None"
  by (simp add: standard_binary_search_def standard_binary_search_base_def end_of_def
      standard_binary_search_loop_stuck [where low = 0, simplified])

text \<open>
  C3. On \<open>[1, 3, 5, 7, 9]\<close> the standard binary search returns the iterator at
  index \<open>2\<close> for the key \<open>5\<close>; for the key \<open>4\<close> it does not return the end
  sentinel, it never returns.
\<close>

theorem standard_binary_search_example:
  "standard_binary_search [1, 3, 5, 7, 9::int] 5 = Some (Inr 2) \<and>
   standard_binary_search [1, 3, 5, 7, 9::int] 4 = None"
proof
  show "standard_binary_search [1, 3, 5, 7, 9::int] 5 = Some (Inr 2)"
    by code_simp
  show "standard_binary_search [1, 3, 5, 7, 9::int] 4 = None"
    apply (simp add: standard_binary_search_def standard_binary_search_base_def end_of_def)
    apply (subst standard_binary_search_loop.simps)
    apply (simp add: deref_def end_of_def
        standard_binary_search_loop_stuck [where low = 0, simplified])
    done
qed

section \<open>Results on concrete ranges\<close>

text \<open>
  C1. The key \<open>5\<close> is the element at index \<open>2\<close> of the sorted range
  \<open>[1, 3, 5, 7, 9]\<close>, and the tripletapped binary search returns the end sentinel
  for it, in its keyed form with the natural \<open><\<close> and \<open>=\<close> and in its default form.
  So does the default form of the breaking linear search; and the monobound
  binary search returns the end sentinel for the key \<open>7\<close>, the element at index \<open>3\<close>.
\<close>

theorem tripletapped_misses_present_key:
  "[1, 3, 5, 7, 9::int] ! 2 = 5 \<and>
   tripletapped_binary_search_keyed [1, 3, 5, 7, 9::int] 5 (<) (=)
     = Some (Inr (end_of [1, 3, 5, 7, 9::int])) \<and>
   tripletapped_binary_search [1, 3, 5, 7, 9::int] 5 = Some (Inr (end_of [1, 3, 5, 7, 9::int])) \<and>
   breaking_linear_search [1, 3, 5, 7, 9::int] 5 = Inr (end_of [1, 3, 5, 7, 9::int]) \<and>
   [1, 3, 5, 7, 9::int] ! 3 = 7 \<and>
   monobound_binary_search_keyed [1, 3, 5, 7, 9::int] 7 (<) (=) = Inr (end_of [1, 3, 5, 7, 9::int])"
  by code_simp

text \<open>
  C5. On the one-element range \<open>[5]\<close> and the key \<open>5\<close> the variants disagree on
  existence: the standard binary search returns the iterator at index \<open>0\<close>, the
  tripletapped binary search returns the end sentinel.
\<close>

theorem standard_and_tripletapped_disagree:
  "standard_binary_search [5::int] 5 = Some (Inr 0) \<and>
   tripletapped_binary_search [5::int] 5 = Some (Inr (end_of [5::int]))"
  by code_simp

text \<open>
  C4. On the empty range nine variants return the end sentinel, whatever the
  predicates are (none is applied: any read of the empty range would be an
  \<open>Out_Of_Range\<close> result); the doubletapped binary search has no test for the
  empty range before its assertion \<^verbatim>\<open>assert(begin < end)\<close>, which fails.
\<close>

theorem empty_range_results:
  "linear_search_base [] equal_to = Inr (end_of []) \<and>
   breaking_linear_search_base [] less_than' equal_to = Inr (end_of []) \<and>
   standard_binary_search_base [] less_than' equal_to = Some (Inr (end_of [])) \<and>
   boundless_binary_search_base [] less_than' equal_to = Inr (end_of []) \<and>
   monobound_binary_search_base [] less_than' equal_to = Inr (end_of []) \<and>
   tripletapped_binary_search_base [] less_than' equal_to = Some (Inr (end_of [])) \<and>
   monobound_quaternary_search_base [] less_than' equal_to = Inr (end_of []) \<and>
   monobound_interpolated_search_base [] key operand_less_than operand_equal_to
     = Some (Inr (end_of [])) \<and>
   adaptive_binary_search_base array_size [] key less_than' equal_to state
     = Some (Inr (end_of []), state) \<and>
   doubletapped_binary_search_base [] less_than' equal_to = Inl Assertion_Failed"
  by (simp add: linear_search_base_def breaking_linear_search_base_def
      standard_binary_search_base_def boundless_binary_search_base_def
      monobound_binary_search_base_def tripletapped_binary_search_base_def
      monobound_quaternary_search_base_def monobound_interpolated_search_base_def
      adaptive_binary_search_base_def doubletapped_binary_search_base_def end_of_def)

text \<open>
  C6. On \<open>[1, 3, 5, 7, 9]\<close> and the key \<open>5\<close> the default form of the breaking
  linear search returns the end sentinel, and its keyed form with the natural
  \<open><\<close> and \<open>=\<close> of the integers returns the iterator at index \<open>2\<close>.
\<close>

theorem breaking_linear_search_default_differs:
  "breaking_linear_search [1, 3, 5, 7, 9::int] 5 = Inr (end_of [1, 3, 5, 7, 9::int]) \<and>
   breaking_linear_search_keyed [1, 3, 5, 7, 9::int] 5 (<) (=) = Inr 2"
  by code_simp

text \<open>
  The estimate for the key \<open>5\<close> in \<open>[1, 3, 5, 7, 9]\<close> is exact, \<open>4 * (4 / 8) = 2\<close>.
  Rounding shows elsewhere: \<open>22 * (15 / 22)\<close> falls just below \<open>15\<close> and gives \<open>14\<close>.
\<close>

lemma interpolate_example: "interpolate 4 5 1 9 = Inr 2"
  by code_simp

lemma interpolate_rounds: "interpolate 22 15 0 22 = Inr 14"
  by code_simp

text \<open>
  C7. On \<open>[1, 3, 5, 7, 9]\<close> the interpolated search returns the end sentinel for
  the key \<open>0\<close> before any galloping. For the key \<open>9\<close> it returns the last element
  exactly when the key compares equal to the iterator at index \<open>4\<close>, and the end
  sentinel otherwise; for the key \<open>5\<close> it returns index \<open>2\<close> exactly when the key
  does not compare less than the iterator at index \<open>2\<close>. No element decides
  either outcome.
\<close>

theorem monobound_interpolated_search_example:
  "monobound_interpolated_search less_iterator equal_iterator [1, 3, 5, 7, 9] 0
     = Some (Inr (end_of [1, 3, 5, 7, 9::int])) \<and>
   (monobound_interpolated_search less_iterator equal_iterator [1, 3, 5, 7, 9] 9 = Some (Inr 4))
     = equal_iterator 9 4 \<and>
   (monobound_interpolated_search less_iterator equal_iterator [1, 3, 5, 7, 9] 9
     = Some (Inr (end_of [1, 3, 5, 7, 9::int]))) = (\<not> equal_iterator 9 4) \<and>
   (monobound_interpolated_search less_iterator equal_iterator [1, 3, 5, 7, 9] 5 = Some (Inr 2))
     = (\<not> less_iterator 5 2)"
proof (intro conjI)
  show "monobound_interpolated_search less_iterator equal_iterator [1, 3, 5, 7, 9] 0
     = Some (Inr (end_of [1, 3, 5, 7, 9::int]))"
    by (simp add: monobound_interpolated_search_def monobound_interpolated_search_base_def
        end_of_def deref_def)
  show "(monobound_interpolated_search less_iterator equal_iterator [1, 3, 5, 7, 9] 9 = Some (Inr 4))
     = equal_iterator 9 4"
    by (simp add: monobound_interpolated_search_def monobound_interpolated_search_base_def
        end_of_def deref_def)
  show "(monobound_interpolated_search less_iterator equal_iterator [1, 3, 5, 7, 9] 9
     = Some (Inr (end_of [1, 3, 5, 7, 9::int]))) = (\<not> equal_iterator 9 4)"
    by (simp add: monobound_interpolated_search_def monobound_interpolated_search_base_def
        end_of_def deref_def)
  show "(monobound_interpolated_search less_iterator equal_iterator [1, 3, 5, 7, 9] 5 = Some (Inr 2))
     = (\<not> less_iterator 5 2)"
    apply (simp add: monobound_interpolated_search_def monobound_interpolated_search_base_def
        end_of_def deref_def interpolate_example)
    apply (subst interpolated_gallop_up.simps)
    apply (subst interpolated_gallop_down.simps)
    apply (simp add: end_of_def deref_def)
    done
qed

section \<open>Element accesses stay inside the range\<close>

text \<open>
  The narrowing loops keep \<^verbatim>\<open>bot\<close> plus the width of the window at or below the
  size of the range, and the width at least one. Every probe lies strictly
  inside the window, so every \<open>deref\<close> of the loops succeeds.
\<close>

lemma deref_in_range: "0 \<le> it \<Longrightarrow> it < end_of xs \<Longrightarrow> deref xs it = Inr (xs ! nat it)"
  by (simp add: deref_def)

lemma boundless_binary_search_loop_in_range:
  "0 \<le> bot' \<Longrightarrow> 1 \<le> mid \<Longrightarrow> bot' + mid \<le> end_of xs \<Longrightarrow>
   \<exists>b. boundless_binary_search_loop xs less_than' bot' mid = Inr b \<and> 0 \<le> b \<and> b < end_of xs"
proof (induction xs less_than' bot' mid rule: boundless_binary_search_loop.induct)
  case (1 xs less_than' bot' mid)
  show ?case
  proof (cases "1 < mid")
    case False
    with "1.prems" show ?thesis by simp
  next
    case True
    with "1.prems" have d: "deref xs (bot' + mid div 2) = Inr (xs ! nat (bot' + mid div 2))"
      by (intro deref_in_range) auto
    show ?thesis
    proof (cases "less_than' (xs ! nat (bot' + mid div 2))")
      case lt: True
      have "\<exists>b. boundless_binary_search_loop xs less_than' bot' (mid div 2) = Inr b \<and>
          0 \<le> b \<and> b < end_of xs"
        using "1.IH"(2) [OF True d] lt "1.prems" True by auto
      with True d lt show ?thesis by simp
    next
      case nlt: False
      have "\<exists>b. boundless_binary_search_loop xs less_than' (bot' + mid div 2) ((mid + 1) div 2)
          = Inr b \<and> 0 \<le> b \<and> b < end_of xs"
        using "1.IH"(1) [OF True d] nlt "1.prems" True by auto
      with True d nlt show ?thesis by simp
    qed
  qed
qed

lemma doubletapped_binary_search_loop_in_range:
  "0 \<le> bot' \<Longrightarrow> 1 \<le> mid \<Longrightarrow> bot' + mid \<le> end_of xs \<Longrightarrow>
   \<exists>b m. doubletapped_binary_search_loop xs less_than' bot' mid = Inr (b, m) \<and>
      0 \<le> b \<and> 1 \<le> m \<and> m \<le> 2 \<and> b + m \<le> end_of xs"
proof (induction xs less_than' bot' mid rule: doubletapped_binary_search_loop.induct)
  case (1 xs less_than' bot' mid)
  show ?case
  proof (cases "2 < mid")
    case False
    with "1.prems" show ?thesis by simp
  next
    case True
    with "1.prems" have d: "deref xs (bot' + mid div 2) = Inr (xs ! nat (bot' + mid div 2))"
      by (intro deref_in_range) auto
    show ?thesis
    proof (cases "less_than' (xs ! nat (bot' + mid div 2))")
      case lt: True
      have "\<exists>b m. doubletapped_binary_search_loop xs less_than' bot' (mid div 2) = Inr (b, m) \<and>
          0 \<le> b \<and> 1 \<le> m \<and> m \<le> 2 \<and> b + m \<le> end_of xs"
        using "1.IH"(2) [OF True d] lt "1.prems" True by auto
      with True d lt show ?thesis by simp
    next
      case nlt: False
      have "\<exists>b m. doubletapped_binary_search_loop xs less_than' (bot' + mid div 2) ((mid + 1) div 2)
          = Inr (b, m) \<and> 0 \<le> b \<and> 1 \<le> m \<and> m \<le> 2 \<and> b + m \<le> end_of xs"
        using "1.IH"(1) [OF True d] nlt "1.prems" True by auto
      with True d nlt show ?thesis by simp
    qed
  qed
qed

lemma tail_taps_in_range:
  "0 \<le> bot' \<Longrightarrow> 0 \<le> top' \<Longrightarrow> bot' + top' \<le> end_of xs \<Longrightarrow>
   \<exists>r. tail_taps xs equal_to bot' top' = Inr r \<and> 0 \<le> r \<and> r \<le> end_of xs"
proof (induction xs equal_to bot' top' rule: tail_taps.induct)
  case (1 xs equal_to bot' top')
  show ?case
  proof (cases "top' \<noteq> 0")
    case False
    then show ?thesis by (simp add: end_of_def)
  next
    case True
    with "1.prems" have d: "deref xs (bot' + (top' - 1)) = Inr (xs ! nat (bot' + (top' - 1)))"
      by (intro deref_in_range) auto
    show ?thesis
    proof (cases "equal_to (xs ! nat (bot' + (top' - 1)))")
      case eq: True
      with True d "1.prems" show ?thesis by simp
    next
      case neq: False
      have "\<exists>r. tail_taps xs equal_to bot' (top' - 1) = Inr r \<and> 0 \<le> r \<and> r \<le> end_of xs"
        using "1.IH" [OF True d] neq "1.prems" True by auto
      with True d neq show ?thesis by simp
    qed
  qed
qed

lemma monobound_binary_search_loop_in_range:
  "0 \<le> low \<Longrightarrow> 1 \<le> high \<Longrightarrow> low + high \<le> end_of xs \<Longrightarrow>
   \<exists>l. monobound_binary_search_loop xs less_than' low high = Inr l \<and> 0 \<le> l \<and> l < end_of xs"
proof (induction xs less_than' low high rule: monobound_binary_search_loop.induct)
  case (1 xs less_than' low high)
  show ?case
  proof (cases "1 < high")
    case False
    with "1.prems" show ?thesis by simp
  next
    case True
    define k where "k = (high - 0) div 2"
    with True "1.prems" have k: "1 \<le> k" "k < high" by auto
    with "1.prems" have d: "deref xs (0 + k) = Inr (xs ! nat (0 + k))"
      by (intro deref_in_range) auto
    show ?thesis
    proof (cases "less_than' (xs ! nat (0 + k))")
      case lt: True
      have "\<exists>l. monobound_binary_search_loop xs less_than' low (high - k) = Inr l \<and>
          0 \<le> l \<and> l < end_of xs"
        using "1.IH"(2) [OF True k_def d] lt "1.prems" k by auto
      with True d lt k_def show ?thesis by (simp add: Let_def)
    next
      case nlt: False
      have "\<exists>l. monobound_binary_search_loop xs less_than' (low + k) (high - k) = Inr l \<and>
          0 \<le> l \<and> l < end_of xs"
        using "1.IH"(1) [OF True k_def d] nlt "1.prems" k by auto
      with True d nlt k_def show ?thesis by (simp add: Let_def)
    qed
  qed
qed

lemma narrow_to_three_in_range:
  "0 \<le> bot' \<Longrightarrow> 1 \<le> top' \<Longrightarrow> bot' + top' \<le> end_of xs \<Longrightarrow>
   \<exists>b t. narrow_to_three xs less_than' bot' top' = Inr (b, t) \<and>
      0 \<le> b \<and> 1 \<le> t \<and> t \<le> 3 \<and> b + t \<le> end_of xs"
proof (induction xs less_than' bot' top' rule: narrow_to_three.induct)
  case (1 xs less_than' bot' top')
  show ?case
  proof (cases "3 < top'")
    case False
    with "1.prems" show ?thesis by simp
  next
    case True
    define mid where "mid = top' div 2"
    with True have mid: "1 \<le> mid" "mid < top'" "1 \<le> top' - mid" by auto
    with "1.prems" have d: "deref xs (bot' + mid) = Inr (xs ! nat (bot' + mid))"
      by (intro deref_in_range) auto
    show ?thesis
    proof (cases "less_than' (xs ! nat (bot' + mid))")
      case lt: True
      have "\<exists>b t. narrow_to_three xs less_than' bot' (top' - mid) = Inr (b, t) \<and>
          0 \<le> b \<and> 1 \<le> t \<and> t \<le> 3 \<and> b + t \<le> end_of xs"
        using "1.IH"(2) [OF True mid_def d] lt "1.prems" mid by auto
      with True d lt mid_def show ?thesis by (simp add: Let_def)
    next
      case nlt: False
      have "\<exists>b t. narrow_to_three xs less_than' (bot' + mid) (top' - mid) = Inr (b, t) \<and>
          0 \<le> b \<and> 1 \<le> t \<and> t \<le> 3 \<and> b + t \<le> end_of xs"
        using "1.IH"(1) [OF True mid_def d] nlt "1.prems" mid by auto
      with True d nlt mid_def show ?thesis by (simp add: Let_def)
    qed
  qed
qed

lemma monobound_quaternary_search_loop_in_range:
  "0 \<le> bot' \<Longrightarrow> 1 \<le> top' \<Longrightarrow> bot' + top' \<le> end_of xs \<Longrightarrow>
   \<exists>b t. monobound_quaternary_search_loop xs less_than' bot' top' = Inr (b, t) \<and>
      0 \<le> b \<and> 1 \<le> t \<and> b + t \<le> end_of xs"
proof (induction xs less_than' bot' top' rule: monobound_quaternary_search_loop.induct)
  case (1 xs less_than' bot' top')
  let ?goal = "\<lambda>b t. \<exists>b' t'. monobound_quaternary_search_loop xs less_than' b t = Inr (b', t') \<and>
      0 \<le> b' \<and> 1 \<le> t' \<and> b' + t' \<le> end_of xs"
  show ?case
  proof (cases "65536 \<le> top'")
    case False
    with "1.prems" show ?thesis by simp
  next
    case True
    define mid where "mid = top' div 4"
    with True have mid: "1 \<le> mid" "mid * 4 \<le> top'" by auto
    from mid "1.prems" have d2: "deref xs (bot' + mid * 2) = Inr (xs ! nat (bot' + mid * 2))"
      by (intro deref_in_range) auto
    from mid "1.prems" have d1: "deref xs (bot' + mid) = Inr (xs ! nat (bot' + mid))"
      by (intro deref_in_range) auto
    from mid "1.prems" have d3: "deref xs (bot' + mid * 2 + mid) = Inr (xs ! nat (bot' + mid * 2 + mid))"
      by (intro deref_in_range) auto
    show ?thesis
    proof (cases "less_than' (xs ! nat (bot' + mid * 2))")
      case upper: True
      show ?thesis
      proof (cases "less_than' (xs ! nat (bot' + mid))")
        case True
        have "?goal bot' (top' - mid * 3)"
          using "1.IH"(2) [OF \<open>65536 \<le> top'\<close> mid_def d2 upper d1] True "1.prems" mid by auto
        with \<open>65536 \<le> top'\<close> d1 d2 upper True mid_def show ?thesis by (simp add: Let_def)
      next
        case False
        have "?goal (bot' + mid) (top' - mid * 3)"
          using "1.IH"(1) [OF \<open>65536 \<le> top'\<close> mid_def d2 upper d1] False "1.prems" mid by auto
        with \<open>65536 \<le> top'\<close> d1 d2 upper False mid_def show ?thesis by (simp add: Let_def)
      qed
    next
      case lower: False
      show ?thesis
      proof (cases "less_than' (xs ! nat (bot' + mid * 2 + mid))")
        case True
        have "?goal (bot' + mid * 2) (top' - mid * 3)"
          using "1.IH"(4) [OF \<open>65536 \<le> top'\<close> mid_def d2 lower d3] True "1.prems" mid by auto
        with \<open>65536 \<le> top'\<close> d3 d2 lower True mid_def show ?thesis by (simp add: Let_def)
      next
        case False
        have "?goal (bot' + mid * 2 + mid) (top' - mid * 3)"
          using "1.IH"(3) [OF \<open>65536 \<le> top'\<close> mid_def d2 lower d3] False "1.prems" mid by auto
        with \<open>65536 \<le> top'\<close> d3 d2 lower False mid_def show ?thesis by (simp add: Let_def)
      qed
    qed
  qed
qed

lemma tripletapped_tail_zero: "tripletapped_tail xs equal_to bot' top' 0 = Some (Inr (end_of xs))"
  by (subst tripletapped_tail.simps) simp


lemma boundless_binary_search_base_in_range:
  assumes "xs \<noteq> []"
  shows "\<exists>r. boundless_binary_search_base xs less_than' equal_to = Inr r \<and> 0 \<le> r \<and> r \<le> end_of xs"
proof -
  from assms have size: "1 \<le> end_of xs" by (cases xs) (simp_all add: end_of_def)
  then obtain b where "boundless_binary_search_loop xs less_than' 0 (end_of xs) = Inr b"
    and "0 \<le> b" and "b < end_of xs"
    using boundless_binary_search_loop_in_range [of 0 "end_of xs" xs less_than'] by auto
  with size show ?thesis
    by (simp add: boundless_binary_search_base_def deref_in_range)
qed

lemma doubletapped_binary_search_base_in_range:
  assumes "xs \<noteq> []"
  shows "\<exists>r. doubletapped_binary_search_base xs less_than' equal_to = Inr r \<and> 0 \<le> r \<and> r \<le> end_of xs"
proof -
  from assms have size: "1 \<le> end_of xs" by (cases xs) (simp_all add: end_of_def)
  then obtain b m where "doubletapped_binary_search_loop xs less_than' 0 (end_of xs) = Inr (b, m)"
    and "0 \<le> b" and "1 \<le> m" and "b + m \<le> end_of xs"
    using doubletapped_binary_search_loop_in_range [of 0 "end_of xs" xs less_than'] by auto
  with size tail_taps_in_range [of b m xs equal_to] show ?thesis
    by (simp add: doubletapped_binary_search_base_def)
qed

lemma monobound_binary_search_base_in_range:
  assumes "xs \<noteq> []"
  shows "\<exists>r. monobound_binary_search_base xs less_than' equal_to = Inr r \<and> 0 \<le> r \<and> r \<le> end_of xs"
proof -
  from assms have size: "1 \<le> end_of xs" by (cases xs) (simp_all add: end_of_def)
  then obtain l where "monobound_binary_search_loop xs less_than' 0 (end_of xs) = Inr l"
    and "0 \<le> l" and "l < end_of xs"
    using monobound_binary_search_loop_in_range [of 0 "end_of xs" xs less_than'] by auto
  with size show ?thesis
    by (simp add: monobound_binary_search_base_def deref_in_range)
qed

text \<open>
  The tripletapped binary search reads inside the range while it narrows, and
  then returns the end sentinel whatever it has found: its closing loop starts
  from a counter of \<open>0\<close>.
\<close>

lemma tripletapped_binary_search_base_always_end:
  "tripletapped_binary_search_base xs less_than' equal_to = Some (Inr (end_of xs))"
proof (cases "xs = []")
  case True
  then show ?thesis by (simp add: tripletapped_binary_search_base_def end_of_def)
next
  case False
  then have size: "1 \<le> end_of xs" by (cases xs) (simp_all add: end_of_def)
  then obtain b t where "narrow_to_three xs less_than' 0 (end_of xs) = Inr (b, t)"
    using narrow_to_three_in_range [of 0 "end_of xs" xs less_than'] by auto
  with size show ?thesis
    by (simp add: tripletapped_binary_search_base_def tripletapped_tail_zero)
qed

lemma monobound_quaternary_search_base_in_range:
  assumes "xs \<noteq> []"
  shows "\<exists>r. monobound_quaternary_search_base xs less_than' equal_to = Inr r \<and> 0 \<le> r \<and> r \<le> end_of xs"
proof -
  from assms have size: "1 \<le> end_of xs" by (cases xs) (simp_all add: end_of_def)
  then obtain b t where q: "monobound_quaternary_search_loop xs less_than' 0 (end_of xs) = Inr (b, t)"
    and "0 \<le> b" and "1 \<le> t" and "b + t \<le> end_of xs"
    using monobound_quaternary_search_loop_in_range [of 0 "end_of xs" xs less_than'] by auto
  then obtain b' t' where n: "narrow_to_three xs less_than' b t = Inr (b', t')"
    and "0 \<le> b'" and "1 \<le> t'" and "b' + t' \<le> end_of xs"
    using narrow_to_three_in_range [of b t xs less_than'] by auto
  with size q tail_taps_in_range [of b' t' xs equal_to] show ?thesis
    by (simp add: monobound_quaternary_search_base_def)
qed

text \<open>
  C10. On every non-empty range and for all predicates, the boundless,
  doubletapped, monobound, tripletapped and monobound quaternary searches
  return an iterator of \<^verbatim>\<open>[begin, end]\<close>. A read at an offset outside
  \<open>[0, size)\<close> would have ended the search with \<open>Out_Of_Range\<close>, so every element
  access of these searches is at an offset in \<open>[0, size)\<close>.
\<close>

theorem narrowing_searches_read_inside_range:
  assumes "xs \<noteq> []"
  shows "(\<exists>r. boundless_binary_search_base xs less_than' equal_to = Inr r \<and> 0 \<le> r \<and> r \<le> end_of xs) \<and>
    (\<exists>r. doubletapped_binary_search_base xs less_than' equal_to = Inr r \<and> 0 \<le> r \<and> r \<le> end_of xs) \<and>
    (\<exists>r. monobound_binary_search_base xs less_than' equal_to = Inr r \<and> 0 \<le> r \<and> r \<le> end_of xs) \<and>
    (\<exists>r. tripletapped_binary_search_base xs less_than' equal_to = Some (Inr r) \<and> 0 \<le> r \<and> r \<le> end_of xs) \<and>
    (\<exists>r. monobound_quaternary_search_base xs less_than' equal_to = Inr r \<and> 0 \<le> r \<and> r \<le> end_of xs)"
proof (intro conjI)
  show "\<exists>r. tripletapped_binary_search_base xs less_than' equal_to = Some (Inr r) \<and>
      0 \<le> r \<and> r \<le> end_of xs"
    by (simp add: tripletapped_binary_search_base_always_end end_of_def)
qed (use assms in \<open>simp_all add: boundless_binary_search_base_in_range
  doubletapped_binary_search_base_in_range monobound_binary_search_base_in_range
  monobound_quaternary_search_base_in_range\<close>)

theorem narrowing_searches_read_inside_range_witness:
  "[1, 3, 5, 7, 9::int] \<noteq> [] \<and>
   (\<exists>r. boundless_binary_search_base [1, 3, 5, 7, 9::int] (\<lambda>right. 5 < right) (\<lambda>right. 5 = right) = Inr r
      \<and> 0 \<le> r \<and> r \<le> end_of [1, 3, 5, 7, 9::int]) \<and>
   (\<exists>r. doubletapped_binary_search_base [1, 3, 5, 7, 9::int] (\<lambda>right. 5 < right) (\<lambda>right. 5 = right) = Inr r
      \<and> 0 \<le> r \<and> r \<le> end_of [1, 3, 5, 7, 9::int]) \<and>
   (\<exists>r. monobound_binary_search_base [1, 3, 5, 7, 9::int] (\<lambda>right. 5 < right) (\<lambda>right. 5 = right) = Inr r
      \<and> 0 \<le> r \<and> r \<le> end_of [1, 3, 5, 7, 9::int]) \<and>
   (\<exists>r. tripletapped_binary_search_base [1, 3, 5, 7, 9::int] (\<lambda>right. 5 < right) (\<lambda>right. 5 = right)
      = Some (Inr r) \<and> 0 \<le> r \<and> r \<le> end_of [1, 3, 5, 7, 9::int]) \<and>
   (\<exists>r. monobound_quaternary_search_base [1, 3, 5, 7, 9::int] (\<lambda>right. 5 < right) (\<lambda>right. 5 = right)
      = Inr r \<and> 0 \<le> r \<and> r \<le> end_of [1, 3, 5, 7, 9::int])"
proof -
  have nonempty: "[1, 3, 5, 7, 9::int] \<noteq> []" by simp
  from narrowing_searches_read_inside_range [OF nonempty, of "\<lambda>right. 5 < right" "\<lambda>right. 5 = right"]
    nonempty
  show ?thesis by blast
qed

section \<open>The adaptive binary search\<close>

text \<open>
  Galloping upward from a position whose element is not above the key brackets
  the key: the loop returns a window \<^verbatim>\<open>[bot, bot + top)\<close> inside the range whose
  first element is not above the key and which either reaches the end of the
  range or is followed by an element above the key. The closing loop returns a
  match of the window if the window holds one, and the end sentinel otherwise.
\<close>

lemma adaptive_gallop_up_returns:
  "0 \<le> bot' \<Longrightarrow> bot' < end_of xs \<Longrightarrow> 0 < top' \<Longrightarrow> \<not> less_than' (xs ! nat bot') \<Longrightarrow>
   \<exists>b t. adaptive_gallop_up xs less_than' bot' top' = Some (Inr (b, t)) \<and>
      0 \<le> b \<and> 0 < t \<and> b + t \<le> end_of xs \<and> \<not> less_than' (xs ! nat b) \<and>
      (b + t = end_of xs \<or> less_than' (xs ! nat (b + t)))"
proof (induction "nat (end_of xs - bot')" arbitrary: bot' top' rule: less_induct)
  case less
  show ?case
  proof (cases "end_of xs \<le> bot' + top'")
    case True
    with less.prems show ?thesis
      by (subst adaptive_gallop_up.simps) simp
  next
    case False
    with less.prems have d: "deref xs (bot' + top') = Inr (xs ! nat (bot' + top'))"
      by (intro deref_in_range) auto
    show ?thesis
    proof (cases "less_than' (xs ! nat (bot' + top'))")
      case True
      with False d less.prems show ?thesis
        by (subst adaptive_gallop_up.simps) simp
    next
      case nlt: False
      have "\<exists>b t. adaptive_gallop_up xs less_than' (bot' + top') (top' * 2) = Some (Inr (b, t)) \<and>
          0 \<le> b \<and> 0 < t \<and> b + t \<le> end_of xs \<and> \<not> less_than' (xs ! nat b) \<and>
          (b + t = end_of xs \<or> less_than' (xs ! nat (b + t)))"
        using less.prems False nlt by (intro less.hyps) auto
      with False d nlt show ?thesis
        by (subst adaptive_gallop_up.simps) simp
    qed
  qed
qed

lemma tail_taps_finds:
  "0 \<le> bot' \<Longrightarrow> 0 \<le> top' \<Longrightarrow> bot' + top' \<le> end_of xs \<Longrightarrow>
   \<exists>r. tail_taps xs equal_to bot' top' = Inr r \<and>
     (r = end_of xs \<and> (\<forall>j. bot' \<le> j \<and> j < bot' + top' \<longrightarrow> \<not> equal_to (xs ! nat j)) \<or>
      bot' \<le> r \<and> r < bot' + top' \<and> equal_to (xs ! nat r))"
proof (induction xs equal_to bot' top' rule: tail_taps.induct)
  case (1 xs equal_to bot' top')
  show ?case
  proof (cases "top' \<noteq> 0")
    case False
    then have "tail_taps xs equal_to bot' top' = Inr (end_of xs)" and "top' = 0" by simp_all
    then show ?thesis by auto
  next
    case True
    with "1.prems" have d: "deref xs (bot' + (top' - 1)) = Inr (xs ! nat (bot' + (top' - 1)))"
      by (intro deref_in_range) auto
    show ?thesis
    proof (cases "equal_to (xs ! nat (bot' + (top' - 1)))")
      case eq: True
      with True d have "tail_taps xs equal_to bot' top' = Inr (bot' + (top' - 1))" by simp
      with eq "1.prems" True show ?thesis by auto
    next
      case neq: False
      have "\<exists>r. tail_taps xs equal_to bot' (top' - 1) = Inr r \<and>
         (r = end_of xs \<and> (\<forall>j. bot' \<le> j \<and> j < bot' + (top' - 1) \<longrightarrow> \<not> equal_to (xs ! nat j)) \<or>
          bot' \<le> r \<and> r < bot' + (top' - 1) \<and> equal_to (xs ! nat r))"
        using "1.IH" [OF True d] neq "1.prems" True by auto
      then obtain r where r: "tail_taps xs equal_to bot' (top' - 1) = Inr r"
        and cases: "r = end_of xs \<and> (\<forall>j. bot' \<le> j \<and> j < bot' + (top' - 1) \<longrightarrow> \<not> equal_to (xs ! nat j)) \<or>
          bot' \<le> r \<and> r < bot' + (top' - 1) \<and> equal_to (xs ! nat r)" by blast
      have last: "\<not> equal_to (xs ! nat j)" if "j = bot' + (top' - 1)" for j
        using neq that by simp
      have "r = end_of xs \<and> (\<forall>j. bot' \<le> j \<and> j < bot' + top' \<longrightarrow> \<not> equal_to (xs ! nat j)) \<or>
          bot' \<le> r \<and> r < bot' + top' \<and> equal_to (xs ! nat r)"
        using cases
      proof
        assume a: "r = end_of xs \<and> (\<forall>j. bot' \<le> j \<and> j < bot' + (top' - 1) \<longrightarrow> \<not> equal_to (xs ! nat j))"
        have "\<not> equal_to (xs ! nat j)" if "bot' \<le> j" "j < bot' + top'" for j
        proof (cases "j = bot' + (top' - 1)")
          case True then show ?thesis by (rule last)
        next
          case False
          with that have "j < bot' + (top' - 1)" by simp
          with a that show ?thesis by blast
        qed
        with a show ?thesis by blast
      next
        assume "bot' \<le> r \<and> r < bot' + (top' - 1) \<and> equal_to (xs ! nat r)"
        then show ?thesis by simp
      qed
      with True d neq r show ?thesis by simp
    qed
  qed
qed


lemma adaptive_binary_search_from_zero:
  fixes xs :: "'a::linorder list"
  assumes "sorted xs" and "64 < length xs"
  shows "\<exists>r. adaptive_binary_search array_size xs key \<lparr>i = 0, balance = 0\<rparr>
            = Some (Inr r, \<lparr>i = 0, balance = 0\<rparr>) \<and>
          (if key \<in> set xs then 0 \<le> r \<and> r < end_of xs \<and> xs ! nat r = key else r = end_of xs)"
proof -
  let ?lt = "\<lambda>right. key < right" and ?eq = "\<lambda>right. key = right"
  from assms have size: "64 < end_of xs" by (simp add: end_of_def)
  then have d0: "deref xs 0 = Inr (xs ! 0)" by (simp add: deref_def)
  show ?thesis
  proof (cases "key < xs ! 0")
    case True
    have "key \<notin> set xs"
    proof
      assume "key \<in> set xs"
      then obtain j where "j < length xs" and "xs ! j = key" by (auto simp: in_set_conv_nth)
      with assms have "xs ! 0 \<le> key" using sorted_nth_mono [of xs 0 j] by simp
      with True show False by simp
    qed
    moreover have "adaptive_gallop_down xs ?lt 0 32 = Some (Inr (0, 0))"
      by (subst adaptive_gallop_down.simps) simp
    ultimately show ?thesis
      using size d0 True
      by (simp add: adaptive_binary_search_def adaptive_binary_search_base_def)
  next
    case False
    with size obtain b t where up: "adaptive_gallop_up xs ?lt 0 32 = Some (Inr (b, t))"
      and b: "0 \<le> b" and t: "0 < t" and bt: "b + t \<le> end_of xs"
      and low: "\<not> key < xs ! nat b" and high: "b + t = end_of xs \<or> key < xs ! nat (b + t)"
      using adaptive_gallop_up_returns [of 0 xs 32 ?lt] by auto
    from b t bt obtain r where taps: "tail_taps xs ?eq b t = Inr r"
      and found: "r = end_of xs \<and> (\<forall>j. b \<le> j \<and> j < b + t \<longrightarrow> key \<noteq> xs ! nat j) \<or>
          b \<le> r \<and> r < b + t \<and> key = xs ! nat r"
      using tail_taps_finds [of b t xs ?eq] by auto
    have result: "adaptive_binary_search array_size xs key \<lparr>i = 0, balance = 0\<rparr>
            = Some (Inr r, \<lparr>i = 0, balance = 0\<rparr>)"
      using size d0 False up taps
      by (simp add: adaptive_binary_search_def adaptive_binary_search_base_def)
    from found show ?thesis
    proof
      assume none: "r = end_of xs \<and> (\<forall>j. b \<le> j \<and> j < b + t \<longrightarrow> key \<noteq> xs ! nat j)"
      have "key \<notin> set xs"
      proof
        assume "key \<in> set xs"
        then obtain j where j: "j < length xs" and at: "xs ! j = key"
          by (auto simp: in_set_conv_nth)
        consider "int j < b" | "b \<le> int j" "int j < b + t" | "b + t \<le> int j" by linarith
        then show False
        proof cases
          case 1
          with b t bt j assms have "xs ! j \<le> xs ! nat b"
            by (intro sorted_nth_mono) (auto simp: end_of_def)
          with at low have "key = xs ! nat b" by simp
          with none b t show False by auto
        next
          case 2
          with none at show False by (metis nat_int)
        next
          case 3
          with j have "b + t \<noteq> end_of xs" by (simp add: end_of_def)
          with high have "key < xs ! nat (b + t)" by simp
          moreover from 3 b t j assms have "xs ! nat (b + t) \<le> xs ! j"
            by (intro sorted_nth_mono) auto
          ultimately show False using at by simp
        qed
      qed
      with none result show ?thesis by simp
    next
      assume some: "b \<le> r \<and> r < b + t \<and> key = xs ! nat r"
      with b bt have "nat r < length xs" by (auto simp: end_of_def)
      then have "xs ! nat r \<in> set xs" by simp
      with some b bt result show ?thesis by auto
    qed
  qed
qed

text \<open>
  C9. On a sorted array of 1000 integers, a search from the zeroed state for a
  key of the array returns the iterator of an element equal to the key, whatever
  the undeclared \<^verbatim>\<open>array_size\<close> of the fallback branch is (the anchored gallop is
  taken). The state it hands back is the zeroed state again, with \<^verbatim>\<open>balance\<close>
  below the threshold \<open>32\<close>; so the statement applies in turn to each of the
  successive searches for \<open>100, \<dots>, 110\<close> and to the search for \<open>900\<close> after them.
\<close>

theorem adaptive_binary_search_locality:
  fixes xs :: "int list"
  assumes "sorted xs" and "length xs = 1000" and "key \<in> set xs"
  shows "\<exists>r state'. adaptive_binary_search array_size xs key \<lparr>i = 0, balance = 0\<rparr> = Some (Inr r, state') \<and>
    0 \<le> r \<and> r < 1000 \<and> xs ! nat r = key \<and>
    balance state' < 32 \<and> state' = \<lparr>i = 0, balance = 0\<rparr>"
proof -
  from assms have "64 < length xs" by simp
  from adaptive_binary_search_from_zero [OF assms(1) this, of array_size key] assms
  show ?thesis by (auto simp: end_of_def)
qed

theorem adaptive_binary_search_locality_witness:
  "sorted [0..999::int] \<and> length [0..999::int] = 1000 \<and>
   list_all (\<lambda>key. key \<in> set [0..999] \<and>
       adaptive_binary_search 1000 [0..999] key \<lparr>i = 0, balance = 0\<rparr>
         = Some (Inr key, \<lparr>i = 0, balance = 0\<rparr>))
     [100, 101, 102, 103, 104, 105, 106, 107, 108, 109, 110, 900]"
proof -
  have sorted: "sorted [0..999::int]" and len: "length [0..999::int] = 1000" by simp_all
  have found: "adaptive_binary_search 1000 [0..999] key \<lparr>i = 0, balance = 0\<rparr>
         = Some (Inr key, \<lparr>i = 0, balance = 0\<rparr>)" if "0 \<le> key" "key \<le> 999" for key :: int
  proof -
    from that have "key \<in> set [0..999]" by simp
    from adaptive_binary_search_locality [OF sorted len this, of 1000]
    obtain r where r: "adaptive_binary_search 1000 [0..999] key \<lparr>i = 0, balance = 0\<rparr>
         = Some (Inr r, \<lparr>i = 0, balance = 0\<rparr>)"
      and "0 \<le> r" and "r < 1000" and "[0..999] ! nat r = key" by auto
    then have "r = key" by (simp add: nth_upto)
    with r show ?thesis by simp
  qed
  from sorted len show ?thesis by (simp add: found)
qed

text \<open>
  No statement of \<^verbatim>\<open>adaptive_binary_search_base\<close> assigns to \<^verbatim>\<open>state.i\<close> or to
  \<^verbatim>\<open>state.balance\<close>, although the function takes the record by non-const
  reference, anchors the gallop at \<^verbatim>\<open>state.i\<close> and gates it on \<^verbatim>\<open>state.balance\<close>:
  on every path, a call that returns hands the record back as it received it.
\<close>

lemma adaptive_binary_search_base_never_writes_state:
  "adaptive_binary_search_base array_size xs key less_than' equal_to state = Some (r, state')
   \<Longrightarrow> state' = state"
  by (auto simp: adaptive_binary_search_base_def Let_def
      split: if_splits option.splits sum.splits prod.splits)

text \<open>
  C8. A search from the zeroed state that finds the key \<open>70\<close> at index \<open>70\<close> of
  the range \<open>[0, \<dots>, 99]\<close> returns with the state still zeroed, whatever the
  undeclared \<^verbatim>\<open>array_size\<close> is: the call has not mutated the record, and the
  record does not reflect the call.
\<close>

theorem adaptive_binary_search_keeps_state_example:
  "adaptive_binary_search array_size [0..99] 70 \<lparr>i = 0, balance = 0\<rparr>
     = Some (Inr 70, \<lparr>i = 0, balance = 0\<rparr>)"
proof -
  have "sorted [0..99::int]" and "64 < length [0..99::int]" and "(70::int) \<in> set [0..99]"
    by simp_all
  with adaptive_binary_search_from_zero [of "[0..99::int]" array_size 70]
  obtain r where r: "adaptive_binary_search array_size [0..99] 70 \<lparr>i = 0, balance = 0\<rparr>
         = Some (Inr r, \<lparr>i = 0, balance = 0\<rparr>)"
    and "0 \<le> r" and "r < end_of [0..99::int]" and "[0..99] ! nat r = (70::int)"
    by auto
  then have "r = 70" by (simp add: end_of_def)
  with r show ?thesis by simp
qed

end
